theory Spec2Isabelle
  imports Main "HOL-Library.Char_ord" "HOL-Library.List_Lexorder" "HOL-Library.Product_Lexorder"
begin

section \<open>Python string primitives\<close>

text \<open>
  A Python \<open>str\<close> is modelled as a \<open>string\<close>, each \<open>char\<close> standing for the code
  point of the same number (0 to 255). The predicates below are Python's on that range.
  Strings compare as Python compares them: lexicographically by code point.
\<close>

definition isspace :: "char \<Rightarrow> bool" where
  \<comment> \<open>\<open>str.isspace\<close> on one character.\<close>
  "isspace c = (let n = (of_char c :: nat)
                in (9 \<le> n \<and> n \<le> 13) \<or> (28 \<le> n \<and> n \<le> 32) \<or> n = 133 \<or> n = 160)"

definition lower_char :: "char \<Rightarrow> char" where
  "lower_char c = (let n = (of_char c :: nat)
                   in if (65 \<le> n \<and> n \<le> 90) \<or> (192 \<le> n \<and> n \<le> 222 \<and> n \<noteq> 215)
                      then char_of (n + 32) else c)"

definition lower :: "string \<Rightarrow> string" where
  \<comment> \<open>\<open>str.lower()\<close>\<close>
  "lower s = map lower_char s"

definition strip :: "string \<Rightarrow> string" where
  \<comment> \<open>\<open>str.strip()\<close>\<close>
  "strip s = rev (dropWhile isspace (rev (dropWhile isspace s)))"

definition startswith :: "string \<Rightarrow> string \<Rightarrow> bool" where
  \<comment> \<open>\<open>s.startswith(p)\<close>\<close>
  "startswith s p = (take (length p) s = p)"

fun contains :: "string \<Rightarrow> string \<Rightarrow> bool" where
  \<comment> \<open>\<open>q in s\<close> on strings: \<open>contains q s\<close>\<close>
  "contains q [] = (q = [])"
| "contains q (c # s) = (startswith (c # s) q \<or> contains q s)"

fun split_ws_aux :: "string \<Rightarrow> string \<Rightarrow> string list" where
  \<comment> \<open>the second argument is the current word, reversed\<close>
  "split_ws_aux [] cur = (if cur = [] then [] else [rev cur])"
| "split_ws_aux (c # s) cur =
     (if isspace c
      then (if cur = [] then split_ws_aux s [] else rev cur # split_ws_aux s [])
      else split_ws_aux s (c # cur))"

definition split_ws :: "string \<Rightarrow> string list" where
  \<comment> \<open>\<open>s.split()\<close>: the maximal runs of non-whitespace characters\<close>
  "split_ws s = split_ws_aux s []"

definition split_ws_1 :: "string \<Rightarrow> string list" where
  \<comment> \<open>\<open>s.split(None, 1)\<close>: the first word, then the rest from its first non-whitespace character\<close>
  "split_ws_1 s =
     (let t = dropWhile isspace s
      in if t = [] then []
         else (let w = takeWhile (\<lambda>c. \<not> isspace c) t;
                   r = dropWhile isspace (dropWhile (\<lambda>c. \<not> isspace c) t)
               in if r = [] then [w] else [w, r]))"

definition split_sep_1 :: "char \<Rightarrow> string \<Rightarrow> string list" where
  \<comment> \<open>\<open>s.split(sep, 1)\<close> for a one-character separator\<close>
  "split_sep_1 sep s =
     (if sep \<in> set s
      then [takeWhile (\<lambda>c. c \<noteq> sep) s, tl (dropWhile (\<lambda>c. c \<noteq> sep) s)]
      else [s])"

definition is_linebreak :: "char \<Rightarrow> bool" where
  \<comment> \<open>the line boundaries of \<open>str.splitlines\<close> below 256\<close>
  "is_linebreak c = (let n = (of_char c :: nat)
                     in (10 \<le> n \<and> n \<le> 13) \<or> (28 \<le> n \<and> n \<le> 30) \<or> n = 133)"

fun splitlines_aux :: "string \<Rightarrow> string \<Rightarrow> string list" where
  \<comment> \<open>the second argument is the current line, reversed\<close>
  "splitlines_aux [] cur = (if cur = [] then [] else [rev cur])"
| "splitlines_aux (c # s) cur =
     (if is_linebreak c
      then rev cur # (case s of
                        d # s' \<Rightarrow> if c = CHR 0x0D \<and> d = CHR 0x0A then splitlines_aux s' []
                                  else splitlines_aux s []
                      | [] \<Rightarrow> splitlines_aux s [])
      else splitlines_aux s (c # cur))"

definition splitlines :: "string \<Rightarrow> string list" where
  \<comment> \<open>\<open>str.splitlines()\<close>\<close>
  "splitlines s = splitlines_aux s []"

section \<open>The config parser of the SSH host selector\<close>

datatype error = IndexError | OSError

type_synonym entry = "string \<times> string \<times> string option"
  \<comment> \<open>\<open>(display_name, host_alias, theme_or_none)\<close>\<close>

definition getitem :: "'a list \<Rightarrow> nat \<Rightarrow> error + 'a" where
  \<comment> \<open>\<open>xs[i]\<close> for a non-negative index\<close>
  "getitem xs i = (if i < length xs then Inr (xs ! i) else Inl IndexError)"

record scan =
  entries :: "entry list"
  current_hosts :: "string list"
  current_user :: "string option"
  current_theme :: "string option"

definition display_of :: "string option \<Rightarrow> string \<Rightarrow> string" where
  \<comment> \<open>the f-string joining \<open>current_user\<close>, an at sign and \<open>alias\<close>, if \<open>current_user\<close>; else \<open>alias\<close>\<close>
  "display_of user alias =
     (case user of
        None \<Rightarrow> alias
      | Some u \<Rightarrow> if u \<noteq> [] then u @ ''@'' @ alias else alias)"

definition emit_block :: "scan \<Rightarrow> entry list" where
  \<comment> \<open>the entries after the \<open>if current_hosts: for alias in current_hosts: ...\<close> loop\<close>
  "emit_block st =
     (if current_hosts st \<noteq> []
      then entries st @
           map (\<lambda>alias. (display_of (current_user st) alias, alias, current_theme st))
               (filter (\<lambda>alias. alias \<noteq> [] \<and> alias \<noteq> ''*'') (current_hosts st))
      else entries st)"

definition parse_line :: "scan \<Rightarrow> string \<Rightarrow> error + scan" where
  \<comment> \<open>one iteration of \<open>for raw_line in text.splitlines()\<close>\<close>
  "parse_line st raw_line =
     (let line = strip raw_line in
      if startswith (lower line) ''host '' then
        (let parts = split_ws_1 line in
         case (if length parts > 1
               then (case getitem parts 1 of Inl e \<Rightarrow> Inl e | Inr p \<Rightarrow> Inr (split_ws p))
               else Inr []) of
           Inl e \<Rightarrow> Inl e
         | Inr hosts \<Rightarrow>
             Inr \<lparr>entries = emit_block st, current_hosts = hosts,
                  current_user = None, current_theme = None\<rparr>)
      else if line = [] then Inr st
      else if startswith line ''#'' then
        (let rest = strip (drop 1 line); rlower = lower rest in
         if startswith rlower ''kitty theme:'' \<or> startswith rlower ''kitty theme='' then
           (let sep = (if CHR '':'' \<in> set rest then CHR '':'' else CHR ''='') in
            case getitem (split_sep_1 sep rest) 1 of
              Inl e \<Rightarrow> Inl e
            | Inr v \<Rightarrow>
                (let value = strip v in
                 if value \<noteq> [] then Inr (st\<lparr>current_theme := Some value\<rparr>) else Inr st))
         else Inr st)
      else
        (let key_value = split_ws_1 line in
         if length key_value \<ge> 2 then
           (case getitem key_value 0 of
              Inl e \<Rightarrow> Inl e
            | Inr k \<Rightarrow>
                if lower k = ''user''
                then (case getitem key_value 1 of
                        Inl e \<Rightarrow> Inl e
                      | Inr v \<Rightarrow> Inr (st\<lparr>current_user := Some (strip v)\<rparr>))
                else Inr st)
         else Inr st))"

fun scan_lines :: "scan \<Rightarrow> string list \<Rightarrow> error + scan" where
  "scan_lines st [] = Inr st"
| "scan_lines st (l # ls) =
     (case parse_line st l of Inl e \<Rightarrow> Inl e | Inr st' \<Rightarrow> scan_lines st' ls)"

fun dedupe :: "string set \<Rightarrow> entry list \<Rightarrow> entry list" where
  \<comment> \<open>the loop building \<open>unique\<close>, from the set \<open>seen\<close>\<close>
  "dedupe seen [] = []"
| "dedupe seen ((display, alias, theme) # es) =
     (if alias \<notin> seen then (display, alias, theme) # dedupe (insert alias seen) es
      else dedupe seen es)"

definition sort_key_ssh :: "entry \<Rightarrow> string \<times> string" where
  \<comment> \<open>\<open>lambda x: (x[0].lower(), x[1])\<close>\<close>
  "sort_key_ssh x = (lower (fst x), fst (snd x))"

definition initial_scan :: scan where
  "initial_scan = \<lparr>entries = [], current_hosts = [], current_user = None, current_theme = None\<rparr>"

definition collect_entries :: "string \<Rightarrow> error + entry list" where
  \<comment> \<open>\<open>entries\<close> as it stands before the de-duplication, for the text read\<close>
  "collect_entries text =
     (case scan_lines initial_scan (splitlines text) of
        Inl e \<Rightarrow> Inl e
      | Inr st \<Rightarrow> Inr (emit_block st))"

definition parse_ssh_config_text :: "string \<Rightarrow> error + entry list" where
  \<comment> \<open>\<open>parse_ssh_config\<close> from the text read on\<close>
  "parse_ssh_config_text text =
     (case collect_entries text of
        Inl e \<Rightarrow> Inl e
      | Inr es \<Rightarrow> Inr (sort_key sort_key_ssh (dedupe {} es)))"

text \<open>
  What the file system answers for a path. \<open>Path.is_file\<close> returns false when \<open>stat\<close>
  fails with \<open>ENOENT\<close>, \<open>ENOTDIR\<close>, \<open>EBADF\<close> or \<open>ELOOP\<close>, and raises the
  \<open>OSError\<close> again for every other error number (a name too long, a directory that
  may not be searched).
\<close>

datatype config_file =
    IsFileRaises          \<comment> \<open>\<open>config_path.is_file()\<close> raises \<open>OSError\<close>\<close>
  | NotAFile              \<comment> \<open>\<open>config_path.is_file()\<close> is false\<close>
  | Unreadable            \<comment> \<open>\<open>read_text\<close> raises \<open>OSError\<close>\<close>
  | Readable string       \<comment> \<open>the text decoded with \<open>errors="replace"\<close>\<close>

definition parse_ssh_config :: "config_file \<Rightarrow> error + entry list" where
  "parse_ssh_config config_path =
     (case config_path of
        IsFileRaises \<Rightarrow> Inl OSError
      | NotAFile \<Rightarrow> Inr []
      | Unreadable \<Rightarrow> Inr []
      | Readable text \<Rightarrow> parse_ssh_config_text text)"

section \<open>Paths and the environment\<close>

text \<open>
  A \<open>pathlib\<close> path (of the POSIX flavour) is the list of its parts; a path is
  anchored when its first part is the root, \<open>/\<close> or \<open>//\<close>. Paths compare as \<open>pathlib\<close>
  compares them: part by part.
  What \<open>Path.home()\<close>, \<open>expanduser\<close> and \<open>resolve\<close> return depends on the machine, so
  the two ways the source builds a configuration path are kept apart as they are written.
\<close>

type_synonym path = "string list"

datatype located =
    HomeJoin "string list"   \<comment> \<open>\<open>Path.home() / part / ...\<close>\<close>
  | ExpandResolve string     \<comment> \<open>\<open>Path(s).expanduser().resolve()\<close>\<close>

type_synonym environ = "string \<Rightarrow> string option"

definition get_ssh_config_path :: "environ \<Rightarrow> located" where
  "get_ssh_config_path environ =
     (let path = strip (case environ ''SSH_CONFIG_ENV'' of None \<Rightarrow> [] | Some v \<Rightarrow> v)
      in if path \<noteq> [] then ExpandResolve path else HomeJoin [''.ssh'', ''config''])"

definition get_kitty_config_dir :: "environ \<Rightarrow> located" where
  "get_kitty_config_dir environ =
     (case environ ''KITTY_CONFIG_DIRECTORY'' of
        None \<Rightarrow> HomeJoin [''.config'', ''kitty'']
      | Some env \<Rightarrow> if env \<noteq> [] then ExpandResolve env else HomeJoin [''.config'', ''kitty''])"

fun join :: "string \<Rightarrow> string list \<Rightarrow> string" where
  \<comment> \<open>\<open>sep.join(parts)\<close>\<close>
  "join sep [] = []"
| "join sep [p] = p"
| "join sep (p # q # ps) = p @ sep @ join sep (q # ps)"

definition has_root :: "path \<Rightarrow> bool" where
  "has_root p = (case p of [] \<Rightarrow> False | r # ps \<Rightarrow> r = ''/'' \<or> r = ''//'')"

definition path_str :: "path \<Rightarrow> string" where
  \<comment> \<open>\<open>str(path)\<close>: the formatted parts, or a dot when that is empty\<close>
  "path_str p =
     (let s = (if has_root p then hd p @ join ''/'' (tl p) else join ''/'' p)
      in if s = [] then ''.'' else s)"

definition name :: "path \<Rightarrow> string" where
  \<comment> \<open>\<open>path.name\<close>: the last part, empty when only the root is there\<close>
  "name p = (if length p = (if has_root p then 1 else 0) then [] else last p)"

definition rfind_dot :: "string \<Rightarrow> nat option" where
  \<comment> \<open>\<open>s.rfind('.')\<close>, \<open>None\<close> for -1\<close>
  "rfind_dot s =
     (if CHR ''.'' \<in> set s
      then Some (length s - 1 - length (takeWhile (\<lambda>c. c \<noteq> CHR ''.'') (rev s)))
      else None)"

definition stem :: "path \<Rightarrow> string" where
  \<comment> \<open>\<open>path.stem\<close>: the name without its last suffix\<close>
  "stem p =
     (let n = name p in
      case rfind_dot n of
        None \<Rightarrow> n
      | Some i \<Rightarrow> if 0 < i \<and> i + 1 < length n then take i n else n)"

datatype value_error = ValueError

definition relative_to :: "path \<Rightarrow> path \<Rightarrow> value_error + path" where
  \<comment> \<open>\<open>path.relative_to(other)\<close>; an anchored path counts an empty drive before its root\<close>
  "relative_to p other =
     (let abs_parts = (if has_root p then [] # p else p);
          to_abs_parts = (if has_root other then [] # other else other);
          n = length to_abs_parts
      in if (if n = 0 then has_root p else take n abs_parts \<noteq> to_abs_parts)
         then Inl ValueError
         else Inr (drop n abs_parts))"

definition parent :: "path \<Rightarrow> path" where
  \<comment> \<open>\<open>path.parent\<close>; the empty list is \<open>Path(".")\<close>\<close>
  "parent p = (if length p = 1 \<and> has_root p then p else butlast p)"

fun split_sep_aux :: "char \<Rightarrow> string \<Rightarrow> string \<Rightarrow> string list" where
  \<comment> \<open>the third argument is the current piece, reversed\<close>
  "split_sep_aux sep [] cur = [rev cur]"
| "split_sep_aux sep (c # s) cur =
     (if c = sep then rev cur # split_sep_aux sep s [] else split_sep_aux sep s (c # cur))"

definition split_sep :: "char \<Rightarrow> string \<Rightarrow> string list" where
  \<comment> \<open>\<open>s.split(sep)\<close> for a one-character separator\<close>
  "split_sep sep s = split_sep_aux sep s []"

definition splitroot :: "string \<Rightarrow> string \<times> string" where
  \<comment> \<open>the root and the rest of a path string: exactly two leading slashes are kept\<close>
  "splitroot part =
     (if part \<noteq> [] \<and> hd part = CHR ''/''
      then (let stripped_part = dropWhile (\<lambda>c. c = CHR ''/'') part
            in if length part - length stripped_part = 2 then (''//'', stripped_part)
               else (''/'', stripped_part))
      else ([], part))"

definition parse_part :: "string \<Rightarrow> path" where
  \<comment> \<open>the parts \<open>pathlib\<close> reads from one string: empty pieces and dots are dropped\<close>
  "parse_part part =
     (if part = [] then []
      else (case splitroot part of
              (root, rel) \<Rightarrow>
                (if root \<noteq> [] then [root] else [])
                @ (if CHR ''/'' \<in> set rel
                   then filter (\<lambda>x. x \<noteq> [] \<and> x \<noteq> ''.'') (split_sep CHR ''/'' rel)
                   else if rel \<noteq> [] \<and> rel \<noteq> ''.'' then [rel] else [])))"

definition truediv :: "path \<Rightarrow> string \<Rightarrow> path" where
  \<comment> \<open>\<open>path / key\<close>: an anchored key replaces the path\<close>
  "truediv p key = (let q = parse_part key in if has_root q then q else p @ q)"

section \<open>The theme collector of the theme selector\<close>

type_synonym theme = "string \<times> path"
  \<comment> \<open>\<open>(display, path)\<close>\<close>

record dir_view =
  is_dir :: bool                \<comment> \<open>\<open>config_dir.is_dir()\<close>\<close>
  rglob_conf :: "path list"     \<comment> \<open>what \<open>config_dir.rglob("*.conf")\<close> yields, in its order\<close>

definition display_name :: "path \<Rightarrow> path \<Rightarrow> string" where
  \<comment> \<open>the \<open>try\<close> block computing \<open>display\<close>\<close>
  "display_name config_dir p =
     (case relative_to p config_dir of
        Inl ValueError \<Rightarrow> stem p
      | Inr rel \<Rightarrow>
          if parent rel \<noteq> [] then path_str (truediv (parent rel) (stem p)) else stem p)"

fun collect_loop :: "path \<Rightarrow> string set \<Rightarrow> path list \<Rightarrow> theme list" where
  \<comment> \<open>the loop over the sorted paths, from the set \<open>seen_stems\<close>\<close>
  "collect_loop config_dir seen_stems [] = []"
| "collect_loop config_dir seen_stems (p # ps) =
     (if stem p \<in> seen_stems then collect_loop config_dir seen_stems ps
      else (display_name config_dir p, p) # collect_loop config_dir (insert (stem p) seen_stems) ps)"

definition collect_themes :: "path \<Rightarrow> dir_view \<Rightarrow> theme list" where
  "collect_themes config_dir fs =
     (if \<not> is_dir fs then []
      else sort_key (\<lambda>t. lower (fst t)) (collect_loop config_dir {} (sort (rglob_conf fs))))"

section \<open>External processes\<close>

text \<open>
  The machine the picker runs on is a \<open>world\<close>: what \<open>subprocess.run\<close> gives for a
  command line, and whether \<open>os.execvp\<close> finds a program. The outcomes are the ones
  the source tells apart. An \<open>execvp\<close> that finds its program replaces the process
  image: the picker's code stops there. Every function that starts a process returns
  the calls it made, in order, with its result.
\<close>

datatype run_result =
    Completed int string string   \<comment> \<open>\<open>returncode\<close>, \<open>stdout\<close>, \<open>stderr\<close>\<close>
  | FileNotFoundError
  | TimeoutExpired

datatype exec_result = Replaces | ExecFileNotFound

record world =
  run :: "string list \<Rightarrow> run_result"
  execvp :: "string \<Rightarrow> exec_result"

datatype call =
    Run "string list"             \<comment> \<open>\<open>subprocess.run(argv, ...)\<close>\<close>
  | Execvp string "string list"   \<comment> \<open>\<open>os.execvp(file, argv)\<close>\<close>

datatype 'a outcome =
    Return 'a
  | ProcessReplaced

datatype severity = Information | Error

datatype message =
    Text string
  | Connecting string   \<comment> \<open>\<open>Connecting to\<close>, the display name, and an ellipsis\<close>

record notification =
  msg :: message
  sev :: severity
  timeout :: nat

fun digits :: "nat \<Rightarrow> string" where
  "digits n = (if n < 10 then [char_of (48 + n)] else digits (n div 10) @ [char_of (48 + n mod 10)])"

definition str_int :: "int \<Rightarrow> string" where
  \<comment> \<open>\<open>str(i)\<close>\<close>
  "str_int i = (if i < 0 then ''-'' @ digits (nat (- i)) else digits (nat i))"

section \<open>The launcher of the SSH host selector\<close>

definition launch_tab :: "string list" where
  "launch_tab = [''kitten'', ''@'', ''launch'', ''--type=tab'', ''--cwd'', ''current'']"

definition kitten_ssh_argv :: "string \<Rightarrow> string option \<Rightarrow> string list" where
  \<comment> \<open>\<open>ssh_argv\<close> as built in the kitten branch\<close>
  "kitten_ssh_argv host_alias theme =
     [''kitten'', ''ssh'']
     @ (case theme of
          None \<Rightarrow> []
        | Some t \<Rightarrow> if t \<noteq> [] then [''--kitten'', ''color_scheme='' @ t] else [])
     @ [host_alias]"

definition exec_ssh :: "world \<Rightarrow> string \<Rightarrow> call list \<times> bool outcome" where
  \<comment> \<open>\<open>try: os.execvp("ssh", ["ssh", host_alias]) except FileNotFoundError: return False\<close>\<close>
  "exec_ssh w host_alias =
     ([Execvp ''ssh'' [''ssh'', host_alias]],
      (case execvp w ''ssh'' of Replaces \<Rightarrow> ProcessReplaced | ExecFileNotFound \<Rightarrow> Return False))"

definition connect :: "world \<Rightarrow> bool \<Rightarrow> string \<Rightarrow> string option \<Rightarrow> call list \<times> bool outcome" where
  \<comment> \<open>\<open>_connect\<close>, with \<open>self.use_kitten_ssh\<close> as the second argument\<close>
  "connect w use_kitten_ssh host_alias theme =
     (if use_kitten_ssh then
        (let ssh_argv = kitten_ssh_argv host_alias theme;
             tab = launch_tab @ ssh_argv
         in if (case run w tab of Completed rc out err \<Rightarrow> rc = 0 | _ \<Rightarrow> False)
            then ([Run tab], Return True)
            else (case execvp w ''kitten'' of
                    Replaces \<Rightarrow> ([Run tab, Execvp ''kitten'' ssh_argv], ProcessReplaced)
                  | ExecFileNotFound \<Rightarrow>
                      (let (calls, r) = exec_ssh w host_alias
                       in ([Run tab, Execvp ''kitten'' ssh_argv] @ calls, r))))
      else
        (let tab = launch_tab @ [''ssh'', host_alias]
         in if (case run w tab of Completed rc out err \<Rightarrow> rc = 0 | _ \<Rightarrow> False)
            then ([Run tab], Return True)
            else (let (calls, r) = exec_ssh w host_alias in (Run tab # calls, r))))"

section \<open>The launcher of the theme selector\<close>

definition set_colors :: "string \<Rightarrow> path \<Rightarrow> string list" where
  "set_colors prog p = [prog, ''@'', ''set-colors'', ''-a'', path_str p]"

definition or_else :: "string \<Rightarrow> string \<Rightarrow> string" where
  \<comment> \<open>\<open>a or b\<close> on strings\<close>
  "or_else a b = (if a \<noteq> [] then a else b)"

record apply_result =
  calls :: "call list"
  notices :: "notification list"
  ok :: bool

fun apply_loop :: "world \<Rightarrow> string option \<Rightarrow> string list list \<Rightarrow> apply_result" where
  \<comment> \<open>the \<open>for cmd in (...)\<close> loop from \<open>last_err\<close> on, and the code after it\<close>
  "apply_loop w last_err [] =
     \<lparr>calls = [],
      notices = [\<lparr>msg = Text (case last_err of
                              None \<Rightarrow> ''Neither kitten nor kitty found in PATH''
                            | Some e \<Rightarrow> or_else e ''Neither kitten nor kitty found in PATH''),
                sev = Error, timeout = 6\<rparr>],
      ok = False\<rparr>"
| "apply_loop w last_err (cmd # cmds) =
     (case run w cmd of
        Completed rc out err \<Rightarrow>
          if rc = 0 then \<lparr>calls = [Run cmd], notices = [], ok = True\<rparr>
          else (let r = apply_loop w
                          (Some (strip (or_else err (or_else out (''exit '' @ str_int rc))))) cmds
                in r\<lparr>calls := Run cmd # calls r\<rparr>)
      | FileNotFoundError \<Rightarrow>
          (let r = apply_loop w last_err cmds in r\<lparr>calls := Run cmd # calls r\<rparr>)
      | TimeoutExpired \<Rightarrow>
          \<lparr>calls = [Run cmd],
           notices = [\<lparr>msg = Text ''Timed out waiting for kitty (try again or increase timeout)'',
                     sev = Error, timeout = 6\<rparr>],
           ok = False\<rparr>)"

definition apply_theme :: "world \<Rightarrow> path \<Rightarrow> string \<Rightarrow> apply_result" where
  \<comment> \<open>\<open>_apply_theme\<close>\<close>
  "apply_theme w p display =
     apply_loop w None [set_colors ''kitten'' p, set_colors ''kitty'' p]"

section \<open>The pickers\<close>

text \<open>
  The state of an application object: the fields the source declares, and of its widgets
  what the handlers read or write (the status line, the notifications shown, whether
  \<open>exit\<close> was called, the list refreshes scheduled with \<open>run_worker\<close>) together with the
  highlighted index that the list view keeps.
\<close>

record ssh_app =
  use_kitten_ssh :: bool
  hosts :: "entry list"
  filtered :: "entry list"          \<comment> \<open>\<open>self._filtered\<close>\<close>
  status :: string
  shown :: "notification list"
  exited :: bool
  refreshes :: nat
  highlighted :: "nat option"

record theme_app =
  themes :: "theme list"
  t_filtered :: "theme list"        \<comment> \<open>\<open>self._filtered\<close>\<close>
  t_status :: string
  t_shown :: "notification list"
  t_exited :: bool
  t_refreshes :: nat
  t_highlighted :: "nat option"

definition query_of :: "string option \<Rightarrow> string" where
  \<comment> \<open>\<open>(event.value or "").strip().lower()\<close>\<close>
  "query_of v = lower (strip (case v of None \<Rightarrow> [] | Some s \<Rightarrow> s))"

definition ssh_on_input_changed :: "ssh_app \<Rightarrow> string option \<Rightarrow> ssh_app" where
  \<comment> \<open>\<open>SSHHostSelectorApp.on_input_changed\<close>\<close>
  "ssh_on_input_changed app v =
     (let query = query_of v;
          fl = (if query = [] then hosts app
                else filter (\<lambda>(d, a, t). contains query (lower d) \<or> contains query (lower a))
                       (hosts app))
      in app\<lparr>filtered := fl,
              refreshes := refreshes app + 1,
              status := digits (length fl) @ '' host(s)''\<rparr>)"

definition theme_on_input_changed :: "theme_app \<Rightarrow> string option \<Rightarrow> theme_app" where
  \<comment> \<open>\<open>ThemeSelectorApp.on_input_changed\<close>\<close>
  "theme_on_input_changed app v =
     (let query = query_of v;
          fl = (if query = [] then themes app
                else filter (\<lambda>(d, p). contains query (lower d)) (themes app))
      in app\<lparr>t_filtered := fl,
              t_refreshes := t_refreshes app + 1,
              t_status := digits (length fl) @ '' theme(s)''\<rparr>)"

definition ssh_on_list_view_selected ::
  "world \<Rightarrow> ssh_app \<Rightarrow> int \<Rightarrow> call list \<times> ssh_app outcome" where
  \<comment> \<open>\<open>SSHHostSelectorApp.on_list_view_selected\<close>, with \<open>event.index\<close>\<close>
  "ssh_on_list_view_selected w app idx =
     (if idx < 0 \<or> idx \<ge> int (length (filtered app)) then ([], Return app)
      else (case filtered app ! nat idx of
              (display, host_alias, theme) \<Rightarrow>
                (case connect w (use_kitten_ssh app) host_alias theme of
                   (cs, ProcessReplaced) \<Rightarrow> (cs, ProcessReplaced)
                 | (cs, Return True) \<Rightarrow>
                     (cs, Return (app\<lparr>shown := shown app @
                                          [\<lparr>msg = Connecting display, sev = Information,
                                            timeout = 2\<rparr>],
                                        exited := True\<rparr>))
                 | (cs, Return False) \<Rightarrow>
                     (cs, Return (app\<lparr>shown := shown app @
                                          [\<lparr>msg = Text ''Could not run kitten ssh or ssh (not in PATH)'',
                                            sev = Error, timeout = 5\<rparr>]\<rparr>)))))"

definition theme_on_list_view_selected ::
  "world \<Rightarrow> theme_app \<Rightarrow> int \<Rightarrow> call list \<times> theme_app" where
  \<comment> \<open>\<open>ThemeSelectorApp.on_list_view_selected\<close>, with \<open>event.index\<close>\<close>
  "theme_on_list_view_selected w app idx =
     (if idx < 0 \<or> idx \<ge> int (length (t_filtered app)) then ([], app)
      else (case t_filtered app ! nat idx of
              (display, p) \<Rightarrow>
                (let r = apply_theme w p display;
                     app1 = app\<lparr>t_shown := t_shown app @ notices r\<rparr>
                 in if ok r
                    then (calls r,
                          app1\<lparr>t_shown := t_shown app1 @
                                   [\<lparr>msg = Text (''Applied: '' @ display), sev = Information,
                                     timeout = 2\<rparr>],
                                t_status := ''Current: '' @ display\<rparr>)
                    else (calls r, app1))))"

section \<open>Sample inputs\<close>

definition scenario_A :: string where
  "scenario_A = ''Host alpha beta'' @ [CHR 0x0A] @ ''  User root'' @ [CHR 0x0A]
     @ ''# kitty theme: dracula'' @ [CHR 0x0A] @ ''Host *'' @ [CHR 0x0A]"

definition directive_text :: string where
  "directive_text = ''Host h'' @ [CHR 0x0A] @ ''# kitty theme=a:b'' @ [CHR 0x0A]"

definition dup_text :: string where
  "dup_text = ''Host b a'' @ [CHR 0x0A] @ ''User x'' @ [CHR 0x0A] @ ''Host a B'' @ [CHR 0x0A]
     @ ''User y'' @ [CHR 0x0A]"

definition dup_dir :: dir_view where
  "dup_dir = \<lparr>is_dir = True,
              rglob_conf = [[''/'', ''k'', ''b'', ''one.conf''], [''/'', ''k'', ''zed.conf''],
                            [''/'', ''k'', ''a'', ''one.conf''], [''/'', ''k'', ''Zed.conf'']]\<rparr>"

definition env_blank :: environ where
  "env_blank = (\<lambda>k. if k = ''KITTY_CONFIG_DIRECTORY'' \<or> k = ''SSH_CONFIG_ENV'' then Some '' '' else None)"

definition ssh_app0 :: ssh_app where
  "ssh_app0 = \<lparr>use_kitten_ssh = True,
               hosts = [(''root@alpha'', ''alpha'', None), (''beta'', ''beta'', Some ''dracula''),
                        (''gamma'', ''Gamma'', None)],
               filtered = [(''root@alpha'', ''alpha'', None), (''beta'', ''beta'', Some ''dracula''),
                        (''gamma'', ''Gamma'', None)],
               status = [], shown = [], exited = False, refreshes = 0, highlighted = Some 0\<rparr>"

definition theme_app0 :: theme_app where
  "theme_app0 = \<lparr>themes = [(''a/one'', [''/'', ''k'', ''a'', ''one.conf'']),
                           (''Zed'', [''/'', ''k'', ''Zed.conf''])],
                 t_filtered = [(''a/one'', [''/'', ''k'', ''a'', ''one.conf'']),
                           (''Zed'', [''/'', ''k'', ''Zed.conf''])],
                 t_status = [], t_shown = [], t_exited = False, t_refreshes = 0,
                 t_highlighted = Some 0\<rparr>"

definition world_timeout :: world where
  "world_timeout = \<lparr>run = (\<lambda>argv. TimeoutExpired), execvp = (\<lambda>file. ExecFileNotFound)\<rparr>"

definition world_ok :: world where
  "world_ok = \<lparr>run = (\<lambda>argv. Completed 0 [] []), execvp = (\<lambda>file. ExecFileNotFound)\<rparr>"

definition world_none :: world where
  "world_none = \<lparr>run = (\<lambda>argv. FileNotFoundError), execvp = (\<lambda>file. ExecFileNotFound)\<rparr>"

definition timed_out :: notification where
  "timed_out = \<lparr>msg = Text ''Timed out waiting for kitty (try again or increase timeout)'',
                 sev = Error, timeout = 6\<rparr>"

section \<open>The words of the specification\<close>

text \<open>
  The order the specification gives for the full list, in its words: by the display label
  compared without regard to case, then by the target key where the labels agree.
\<close>

definition label_then_key :: "('a \<Rightarrow> string) \<Rightarrow> ('a \<Rightarrow> 'k::linorder) \<Rightarrow> 'a \<Rightarrow> 'a \<Rightarrow> bool" where
  "label_then_key label key x y =
     (lower (label x) < lower (label y) \<or> (lower (label x) = lower (label y) \<and> key x \<le> key y))"











text \<open>
  What the specification calls a substring: \<open>q\<close> occurs in \<open>s\<close> when \<open>s\<close> is some
  prefix, then \<open>q\<close>, then some suffix.
\<close>

definition occurs_in :: "string \<Rightarrow> string \<Rightarrow> bool" where
  "occurs_in q s = (\<exists>pre post. s = pre @ q @ post)"

section \<open>Properties of the config parser\<close>

lemma lower_char_below_a:
  assumes a: "lower_char c = t" and t: "(of_char t :: nat) < 97"
  shows "c = t"
proof -
  define n where "n = (of_char c :: nat)"
  show ?thesis
  proof (cases "(65 \<le> n \<and> n \<le> 90) \<or> (192 \<le> n \<and> n \<le> 222 \<and> n \<noteq> 215)")
    case True
    have "lower_char c = char_of (n + 32)"
      using True by (auto simp: lower_char_def Let_def n_def)
    then have "(of_char (char_of (n + 32)) :: nat) = of_char t" using a by simp
    then have "(n + 32) mod 256 = (of_char t :: nat)" by simp
    moreover have "(n + 32) mod 256 = n + 32" using True by auto
    ultimately have False using t True by linarith
    then show ?thesis ..
  next
    case False
    have "lower_char c = c"
      using False by (auto simp: lower_char_def Let_def n_def)
    with a show ?thesis by simp
  qed
qed

lemma startswith_set: "startswith s p \<Longrightarrow> set p \<subseteq> set s"
  unfolding startswith_def by (metis set_take_subset)

lemma lower_mem_below_a:
  assumes "t \<in> set (lower s)" and "(of_char t :: nat) < 97"
  shows "t \<in> set s"
proof -
  from assms(1) obtain c where c: "c \<in> set s" "lower_char c = t"
    by (auto simp: lower_def)
  then show ?thesis using lower_char_below_a[OF c(2) assms(2)] by simp
qed

lemma startswith_lower_colon:
  assumes "startswith (lower rest) ''kitty theme:''"
  shows "CHR '':'' \<in> set rest"
proof -
  have "CHR '':'' \<in> set (lower rest)" using startswith_set[OF assms] by simp
  then show ?thesis by (rule lower_mem_below_a) simp
qed

lemma startswith_lower_equals:
  assumes "startswith (lower rest) ''kitty theme=''"
  shows "CHR ''='' \<in> set rest"
proof -
  have "CHR ''='' \<in> set (lower rest)" using startswith_set[OF assms] by simp
  then show ?thesis by (rule lower_mem_below_a) simp
qed

lemma getitem_split_sep_1:
  "sep \<in> set s \<Longrightarrow> getitem (split_sep_1 sep s) 1 = Inr (tl (dropWhile (\<lambda>c. c \<noteq> sep) s))"
  by (simp add: getitem_def split_sep_1_def)

lemma directive_sep_mem:
  assumes "startswith (lower rest) ''kitty theme:'' \<or> startswith (lower rest) ''kitty theme=''"
  shows "(if CHR '':'' \<in> set rest then CHR '':'' else CHR ''='') \<in> set rest"
  using assms startswith_lower_colon startswith_lower_equals by (cases "CHR '':'' \<in> set rest") auto

lemma getitem_Inr: "i < length xs \<Longrightarrow> getitem xs i = Inr (xs ! i)"
  by (simp add: getitem_def)

lemma getitem_two:
  "2 \<le> length xs \<Longrightarrow> getitem xs 0 = Inr (xs ! 0)"
  "2 \<le> length xs \<Longrightarrow> getitem xs 1 = Inr (xs ! 1)"
  by (auto simp: getitem_def)

lemma parse_line_total: "\<exists>st'. parse_line st raw_line = Inr st'"
proof -
  define line where "line = strip raw_line"
  define rest where "rest = strip (drop 1 line)"
  define sep where "sep = (if CHR '':'' \<in> set rest then CHR '':'' else CHR ''='')"
  have c: "startswith (lower rest) ''kitty theme:'' \<or> startswith (lower rest) ''kitty theme=''
     \<Longrightarrow> getitem (split_sep_1 sep rest) (Suc 0) = Inr (tl (dropWhile (\<lambda>c. c \<noteq> sep) rest))"
    unfolding sep_def using getitem_split_sep_1[OF directive_sep_mem] by simp
  show ?thesis
    unfolding parse_line_def Let_def line_def[symmetric] rest_def[symmetric] sep_def[symmetric]
    by (simp add: c getitem_Inr getitem_two)
qed

lemma scan_lines_total: "\<exists>st'. scan_lines st ls = Inr st'"
proof (induction ls arbitrary: st)
  case Nil show ?case by simp
next
  case (Cons l ls)
  obtain st1 where "parse_line st l = Inr st1" using parse_line_total by blast
  then show ?case using Cons.IH[of st1] by simp
qed


lemma parse_ssh_config_text_total: "\<exists>es. parse_ssh_config_text text = Inr es"
proof -
  obtain st where "scan_lines initial_scan (splitlines text) = Inr st"
    using scan_lines_total by blast
  then show ?thesis by (simp add: parse_ssh_config_text_def collect_entries_def)
qed

text \<open>
  C9: \<open>parse_ssh_config\<close> does not return a list for every path. The test
  \<open>config_path.is_file()\<close> stands before the \<open>try\<close>, so when it raises \<open>OSError\<close> the
  function raises. In every other case it returns a list: the empty one for a path that is
  not a regular file and for a read that fails with \<open>OSError\<close>, and for every text read
  no index taken by the parser is out of range.
\<close>

theorem parse_ssh_config_raises_with_is_file:
  "parse_ssh_config IsFileRaises = Inl OSError
   \<and> parse_ssh_config NotAFile = Inr []
   \<and> parse_ssh_config Unreadable = Inr []
   \<and> (\<exists>es. parse_ssh_config (Readable s) = Inr es)"
  by (simp add: parse_ssh_config_def parse_ssh_config_text_total)

lemma emit_block_mem:
  "e \<in> set (emit_block st) \<Longrightarrow>
     e \<in> set (entries st) \<or> (fst (snd e) \<in> set (current_hosts st) \<and> fst (snd e) \<noteq> ''*'')"
  by (auto simp: emit_block_def split: if_splits)

lemma parse_line_entries:
  "parse_line st l = Inr st' \<Longrightarrow> entries st' = entries st \<or> entries st' = emit_block st"
  unfolding parse_line_def Let_def
  by (auto split: if_splits sum.splits)

lemma scan_lines_no_wildcard:
  "scan_lines st ls = Inr st' \<Longrightarrow> \<forall>e \<in> set (entries st). fst (snd e) \<noteq> ''*'' \<Longrightarrow>
     \<forall>e \<in> set (entries st'). fst (snd e) \<noteq> ''*''"
proof (induction ls arbitrary: st)
  case Nil then show ?case by simp
next
  case (Cons l ls)
  from Cons.prems(1) obtain st1 where s1: "parse_line st l = Inr st1" and s2: "scan_lines st1 ls = Inr st'"
    by (auto split: sum.splits)
  have "\<forall>e \<in> set (entries st1). fst (snd e) \<noteq> ''*''"
    using parse_line_entries[OF s1] Cons.prems(2) emit_block_mem[of _ st] by metis
  then show ?case using Cons.IH[OF s2] by blast
qed

lemma dedupe_subset: "set (dedupe seen es) \<subseteq> set es"
  by (induction seen es rule: dedupe.induct) auto

lemma collect_entries_no_wildcard:
  assumes "collect_entries text = Inr es"
  shows "\<forall>e \<in> set es. fst (snd e) \<noteq> ''*''"
proof -
  from assms obtain st where st: "scan_lines initial_scan (splitlines text) = Inr st" and es: "es = emit_block st"
    by (auto simp: collect_entries_def split: sum.splits)
  have "\<forall>e \<in> set (entries st). fst (snd e) \<noteq> ''*''"
    using scan_lines_no_wildcard[OF st] by (simp add: initial_scan_def)
  then show ?thesis using emit_block_mem[of _ st] es by blast
qed

lemma parse_text_subset:
  assumes "parse_ssh_config_text text = Inr es"
  shows "\<exists>cands. collect_entries text = Inr cands \<and> set es \<subseteq> set cands"
proof -
  from assms obtain cands where c: "collect_entries text = Inr cands"
    and es: "es = sort_key sort_key_ssh (dedupe {} cands)"
    by (auto simp: parse_ssh_config_text_def split: sum.splits)
  have "set es \<subseteq> set cands" using dedupe_subset[of "{}" cands] es by simp
  with c show ?thesis by blast
qed

lemma scenario_A_value: "parse_ssh_config (Readable scenario_A) =
     Inr [(''root@alpha'', ''alpha'', Some ''dracula''), (''root@beta'', ''beta'', Some ''dracula'')]"
  by code_simp

text \<open>
  C6: the text of scenario A parses to exactly the two entries \<open>root@alpha\<close> and
  \<open>root@beta\<close>, each with its alias as target and \<open>dracula\<close> as theme, and for
  every configuration source no entry of the result has the alias \<open>*\<close>.
\<close>

theorem scenario_A_and_wildcard:
  "parse_ssh_config (Readable scenario_A) =
     Inr [(''root@alpha'', ''alpha'', Some ''dracula''), (''root@beta'', ''beta'', Some ''dracula'')]
   \<and> (\<forall>config_path es. parse_ssh_config config_path = Inr es \<longrightarrow> ''*'' \<notin> set (map (\<lambda>e. fst (snd e)) es))"
proof -
  have "''*'' \<notin> set (map (\<lambda>e. fst (snd e)) es)" if "parse_ssh_config config_path = Inr es" for config_path es
  proof (cases config_path)
    case (Readable s)
    with that have "parse_ssh_config_text s = Inr es" by (simp add: parse_ssh_config_def)
    then obtain cands where "collect_entries s = Inr cands" "set es \<subseteq> set cands"
      using parse_text_subset by blast
    then show ?thesis using collect_entries_no_wildcard by fastforce
  qed (insert that, auto simp: parse_ssh_config_def)
  then show ?thesis using scenario_A_value by blast
qed

theorem scenario_A_and_wildcard_witness:
  "parse_ssh_config (Readable (''Host * a *'' @ [CHR 0x0A] @ ''Host *'')) = Inr [(''a'', ''a'', None)]
   \<and> ''*'' \<notin> set (map (\<lambda>e. fst (snd e)) [(''a'', ''a'', None :: string option)])"
proof -
  have v: "parse_ssh_config (Readable (''Host * a *'' @ [CHR 0x0A] @ ''Host *'')) = Inr [(''a'', ''a'', None)]"
    by code_simp
  show ?thesis using v scenario_A_and_wildcard[THEN conjunct2, rule_format, OF v] by simp
qed

section \<open>Properties of the full list\<close>




lemma sorted_pair_key:
  "sorted (map (\<lambda>x. (f x, g x)) xs) \<Longrightarrow>
     sorted_wrt (\<lambda>x y. f x < f y \<or> (f x = f y \<and> g x \<le> g y)) xs"
  by (induction xs) (auto simp: less_eq_prod_def less_le)

lemma insort_key_stable:
  fixes f :: "'a \<Rightarrow> 'b::linorder" and g :: "'a \<Rightarrow> 'c::linorder"
  assumes "sorted_wrt (\<lambda>x y. f x < f y \<or> (f x = f y \<and> g x \<le> g y)) ys"
    and "\<forall>y \<in> set ys. g x \<le> g y"
  shows "sorted_wrt (\<lambda>x y. f x < f y \<or> (f x = f y \<and> g x \<le> g y)) (insort_key f x ys)"
  using assms
proof (induction ys)
  case Nil show ?case by simp
next
  case (Cons y ys)
  show ?case
  proof (cases "f x \<le> f y")
    case True
    have "f x < f z \<or> (f x = f z \<and> g x \<le> g z)" if "z \<in> set (y # ys)" for z
    proof -
      have "f y \<le> f z" using Cons.prems(1) that by auto
      then have "f x \<le> f z" using True by simp
      moreover have "g x \<le> g z" using Cons.prems(2) that by auto
      ultimately show ?thesis by (auto simp: less_le)
    qed
    then show ?thesis using True Cons.prems(1) by simp
  next
    case False
    then have "f y < f x" by simp
    moreover have "sorted_wrt (\<lambda>x y. f x < f y \<or> (f x = f y \<and> g x \<le> g y)) (insort_key f x ys)"
      using Cons by simp
    ultimately show ?thesis using False Cons.prems(1) by (auto simp: set_insort_key)
  qed
qed

lemma sort_key_stable_sorted:
  fixes f :: "'a \<Rightarrow> 'b::linorder" and g :: "'a \<Rightarrow> 'c::linorder"
  assumes "sorted (map g xs)"
  shows "sorted_wrt (\<lambda>x y. f x < f y \<or> (f x = f y \<and> g x \<le> g y)) (sort_key f xs)"
  using assms
proof (induction xs)
  case Nil show ?case by simp
next
  case (Cons x xs)
  have "sorted_wrt (\<lambda>x y. f x < f y \<or> (f x = f y \<and> g x \<le> g y)) (sort_key f xs)"
    using Cons by simp
  moreover have "\<forall>y \<in> set (sort_key f xs). g x \<le> g y" using Cons.prems by simp
  ultimately show ?case using insort_key_stable[of f g "sort_key f xs" x] by simp
qed



lemma collect_loop_paths: "set (map snd (collect_loop d seen ps)) \<subseteq> set ps"
  by (induction ps arbitrary: seen) auto

lemma collect_loop_sorted: "sorted ps \<Longrightarrow> sorted (map snd (collect_loop d seen ps))"
proof (induction ps arbitrary: seen)
  case Nil show ?case by simp
next
  case (Cons p ps)
  have "\<forall>q \<in> set (map snd (collect_loop d (insert (stem p) seen) ps)). p \<le> q"
    using collect_loop_paths[of d "insert (stem p) seen" ps] Cons.prems by auto
  then show ?case using Cons by auto
qed















lemma emit_block_attrs_same:
  "emit_block (st\<lparr>current_user := current_user st, current_theme := current_theme st\<rparr>) = emit_block st"
  by simp










lemma dup_text_value:
  "parse_ssh_config (Readable dup_text) =
     Inr [(''x@a'', ''a'', None), (''x@b'', ''b'', None), (''y@B'', ''B'', None)]"
  by code_simp

lemma dup_dir_value:
  "collect_themes [''/'', ''k''] dup_dir =
     [(''a/one'', [''/'', ''k'', ''a'', ''one.conf'']), (''Zed'', [''/'', ''k'', ''Zed.conf'']),
      (''zed'', [''/'', ''k'', ''zed.conf''])]"
  by code_simp


text \<open>
  C4: the full list is sorted by the lower-cased display label, and by the target key
  where two lower-cased labels are equal, in both variants and whatever the order of the
  input. In the theme variant the target key is the path, compared as paths compare. (In
  the config variant a list is produced unless \<open>is_file\<close> raises.)
\<close>

theorem full_list_sorted:
  "(config_path \<noteq> IsFileRaises \<longrightarrow>
      (\<exists>es. parse_ssh_config config_path = Inr es
            \<and> sorted_wrt (label_then_key fst (\<lambda>e. fst (snd e))) es))
   \<and> sorted_wrt (label_then_key fst snd) (collect_themes config_dir fs)"
proof -
  have srt: "sorted_wrt (label_then_key fst (\<lambda>e. fst (snd e))) (sort_key sort_key_ssh xs)" for xs
  proof -
    have "sorted (map (\<lambda>x. (lower (fst x), fst (snd x))) (sort_key sort_key_ssh xs))"
      using sorted_sort_key[of sort_key_ssh xs] by (simp add: sort_key_ssh_def[abs_def])
    from sorted_pair_key[OF this] show ?thesis
      by (simp add: label_then_key_def[abs_def])
  qed
  have ssh: "config_path \<noteq> IsFileRaises \<longrightarrow>
      (\<exists>es. parse_ssh_config config_path = Inr es
            \<and> sorted_wrt (label_then_key fst (\<lambda>e. fst (snd e))) es)"
  proof (cases config_path)
    case (Readable s)
    obtain es where es: "parse_ssh_config_text s = Inr es"
      using parse_ssh_config_text_total by blast
    then obtain cands where "es = sort_key sort_key_ssh (dedupe {} cands)"
      by (auto simp: parse_ssh_config_text_def split: sum.splits)
    then show ?thesis using srt es Readable by (simp add: parse_ssh_config_def)
  qed (simp_all add: parse_ssh_config_def)
  have thms_sorted: "sorted_wrt (label_then_key fst snd) (collect_themes config_dir fs)"
  proof (cases "is_dir fs")
    case True
    have "sorted (map snd (collect_loop config_dir {} (sort (rglob_conf fs))))"
      by (rule collect_loop_sorted) simp
    from sort_key_stable_sorted[OF this, of "\<lambda>t. lower (fst t)"] show ?thesis
      using True by (simp add: collect_themes_def label_then_key_def[abs_def])
  next
    case False
    then show ?thesis by (simp add: collect_themes_def)
  qed
  show ?thesis using ssh thms_sorted by blast
qed

theorem full_list_sorted_witness:
  "parse_ssh_config (Readable dup_text) =
       Inr [(''x@a'', ''a'', None), (''x@b'', ''b'', None), (''y@B'', ''B'', None)]
   \<and> sorted_wrt (label_then_key fst (\<lambda>e. fst (snd e)))
        [(''x@a'', ''a'', None :: string option), (''x@b'', ''b'', None), (''y@B'', ''B'', None)]
   \<and> collect_themes [''/'', ''k''] dup_dir =
        [(''a/one'', [''/'', ''k'', ''a'', ''one.conf'']), (''Zed'', [''/'', ''k'', ''Zed.conf'']),
         (''zed'', [''/'', ''k'', ''zed.conf''])]
   \<and> sorted_wrt (label_then_key fst snd)
        [(''a/one'', [''/'', ''k'', ''a'', ''one.conf'']), (''Zed'', [''/'', ''k'', ''Zed.conf'']),
         (''zed'', [''/'', ''k'', ''zed.conf''])]"
proof -
  have n: "Readable dup_text \<noteq> IsFileRaises" by simp
  from full_list_sorted[of "Readable dup_text" "[''/'', ''k'']" dup_dir] n
  have "(\<exists>es. parse_ssh_config (Readable dup_text) = Inr es
            \<and> sorted_wrt (label_then_key fst (\<lambda>e. fst (snd e))) es)
        \<and> sorted_wrt (label_then_key fst snd) (collect_themes [''/'', ''k''] dup_dir)"
    by blast
  then show ?thesis by (simp only: dup_text_value dup_dir_value) simp
qed

section \<open>Properties of the filter\<close>

lemma startswith_iff: "startswith s q \<longleftrightarrow> (\<exists>post. s = q @ post)"
  unfolding startswith_def
  by (metis append_eq_conv_conj append_take_drop_id)

lemma contains_iff: "contains q s \<longleftrightarrow> occurs_in q s"
proof (induction s)
  case Nil
  show ?case by (auto simp: occurs_in_def)
next
  case (Cons c s)
  have "occurs_in q (c # s) \<longleftrightarrow> (\<exists>post. c # s = q @ post) \<or> occurs_in q s"
  proof
    assume "occurs_in q (c # s)"
    then obtain pre post where e: "c # s = pre @ q @ post" by (auto simp: occurs_in_def)
    show "(\<exists>post. c # s = q @ post) \<or> occurs_in q s"
    proof (cases pre)
      case Nil with e show ?thesis by auto
    next
      case (Cons x pre')
      with e have "s = pre' @ q @ post" by simp
      then show ?thesis by (auto simp: occurs_in_def)
    qed
  next
    assume "(\<exists>post. c # s = q @ post) \<or> occurs_in q s"
    then show "occurs_in q (c # s)"
    proof
      assume "\<exists>post. c # s = q @ post"
      then obtain post where "c # s = [] @ q @ post" by auto
      then show ?thesis unfolding occurs_in_def by blast
    next
      assume "occurs_in q s"
      then obtain pre post where "s = pre @ q @ post" by (auto simp: occurs_in_def)
      then have "c # s = (c # pre) @ q @ post" by simp
      then show ?thesis unfolding occurs_in_def by blast
    qed
  qed
  then show ?case using Cons by (simp add: startswith_iff)
qed

lemma occurs_in_Nil: "occurs_in [] s"
  unfolding occurs_in_def by (rule exI[of _ "[]"], rule exI[of _ s]) simp

text \<open>
  C1, as stated, fails: the handler trims the query before it filters, so the query
  \<open>al\<close> followed by a space keeps \<open>root@alpha\<close>, whose label and alias do not contain
  that query.
\<close>

theorem filter_counterexample:
  "filtered (ssh_on_input_changed ssh_app0 (Some ''al ''))
     \<noteq> filter (\<lambda>e. occurs_in (lower ''al '') (lower (fst e))
                    \<or> occurs_in (lower ''al '') (lower (fst (snd e)))) (hosts ssh_app0)"
  unfolding contains_iff[symmetric] by code_simp

text \<open>
  C1, amended: with the query trimmed of surrounding whitespace and lower-cased, the
  filtered view is exactly the entries of the full list, in its order, whose lower-cased
  label contains the query, or in the config variant whose lower-cased alias does; the
  theme variant looks at the label only; a query that is empty after trimming gives the
  full list unchanged.
\<close>

theorem filter_trimmed_query:
  "filtered (ssh_on_input_changed app v) =
     filter (\<lambda>e. occurs_in (query_of v) (lower (fst e))
                  \<or> occurs_in (query_of v) (lower (fst (snd e)))) (hosts app)
   \<and> t_filtered (theme_on_input_changed tapp v) =
     filter (\<lambda>t. occurs_in (query_of v) (lower (fst t))) (themes tapp)
   \<and> (query_of v = [] \<longrightarrow>
        filtered (ssh_on_input_changed app v) = hosts app
        \<and> t_filtered (theme_on_input_changed tapp v) = themes tapp)
   \<and> query_of (Some q) = lower (strip q) \<and> query_of None = []"
proof -
  define qr where "qr = query_of v"
  have 1: "filtered (ssh_on_input_changed app v) =
     filter (\<lambda>e. occurs_in qr (lower (fst e)) \<or> occurs_in qr (lower (fst (snd e)))) (hosts app)"
    unfolding ssh_on_input_changed_def Let_def qr_def[symmetric]
    by (cases "qr = []") (simp_all add: contains_iff occurs_in_Nil case_prod_unfold)
  have 2: "t_filtered (theme_on_input_changed tapp v) =
     filter (\<lambda>t. occurs_in qr (lower (fst t))) (themes tapp)"
    unfolding theme_on_input_changed_def Let_def qr_def[symmetric]
    by (cases "qr = []") (simp_all add: contains_iff occurs_in_Nil case_prod_unfold)
  have 3: "qr = [] \<longrightarrow> filtered (ssh_on_input_changed app v) = hosts app
        \<and> t_filtered (theme_on_input_changed tapp v) = themes tapp"
    unfolding ssh_on_input_changed_def theme_on_input_changed_def Let_def qr_def[symmetric]
    by simp
  have 4: "query_of (Some q) = lower (strip q) \<and> query_of None = []"
    by (simp add: query_of_def lower_def strip_def)
  show ?thesis using 1 2 3 4 unfolding qr_def by blast
qed

theorem filter_trimmed_query_witness:
  "query_of (Some ''  '') = []
   \<and> filtered (ssh_on_input_changed ssh_app0 (Some ''  '')) = hosts ssh_app0
   \<and> t_filtered (theme_on_input_changed theme_app0 (Some ''  '')) = themes theme_app0"
proof -
  have q: "query_of (Some ''  '') = []" by code_simp
  show ?thesis using q filter_trimmed_query[of ssh_app0 "Some ''  ''" theme_app0 "''  ''"] by blast
qed

section \<open>Properties of the launchers\<close>

text \<open>
  C3, as stated, fails for the theme-apply action: when the first command (\<open>kitten\<close>)
  times out, the second (\<open>kitty\<close>) is never run.
\<close>

theorem timeout_counterexample:
  "run world_timeout (set_colors ''kitten'' [''/'', ''k'', ''a.conf'']) = TimeoutExpired
   \<and> Run (set_colors ''kitty'' [''/'', ''k'', ''a.conf''])
       \<notin> set (calls (apply_theme world_timeout [''/'', ''k'', ''a.conf''] ''a''))"
  by (simp add: world_timeout_def apply_theme_def set_colors_def)

text \<open>
  C3, amended: in the connect action a timeout of the new-tab command makes the launcher
  go on to the next strategy (the \<open>execvp\<close> of \<open>kitten\<close> in kitten mode, of \<open>ssh\<close> in
  plain mode). In the theme-apply action a timeout of a command ends the chain: no
  command is run after it, the result is failure, and the timed-out message is shown.
\<close>

theorem timeout_connect_proceeds_theme_stops:
  "(run w (launch_tab @ kitten_ssh_argv host_alias theme) = TimeoutExpired \<longrightarrow>
      take 2 (fst (connect w True host_alias theme)) =
        [Run (launch_tab @ kitten_ssh_argv host_alias theme),
         Execvp ''kitten'' (kitten_ssh_argv host_alias theme)])
   \<and> (run w (launch_tab @ [''ssh'', host_alias]) = TimeoutExpired \<longrightarrow>
      fst (connect w False host_alias theme) =
        [Run (launch_tab @ [''ssh'', host_alias]), Execvp ''ssh'' [''ssh'', host_alias]])
   \<and> (run w (set_colors ''kitten'' p) = TimeoutExpired \<longrightarrow>
      apply_theme w p display =
        \<lparr>calls = [Run (set_colors ''kitten'' p)], notices = [timed_out], ok = False\<rparr>)
   \<and> ((run w (set_colors ''kitten'' p) = FileNotFoundError
         \<or> (\<exists>rc out err. run w (set_colors ''kitten'' p) = Completed rc out err \<and> rc \<noteq> 0))
        \<and> run w (set_colors ''kitty'' p) = TimeoutExpired \<longrightarrow>
      apply_theme w p display =
        \<lparr>calls = [Run (set_colors ''kitten'' p), Run (set_colors ''kitty'' p)],
         notices = [timed_out], ok = False\<rparr>)"
proof -
  define tab where "tab = launch_tab @ kitten_ssh_argv host_alias theme"
  define ptab where "ptab = launch_tab @ [''ssh'', host_alias]"
  have 1: "run w tab = TimeoutExpired \<longrightarrow>
      take 2 (fst (connect w True host_alias theme)) =
        [Run tab, Execvp ''kitten'' (kitten_ssh_argv host_alias theme)]"
    unfolding connect_def exec_ssh_def Let_def tab_def[symmetric]
    by (cases "execvp w ''kitten''") simp_all
  have 2: "run w ptab = TimeoutExpired \<longrightarrow>
      fst (connect w False host_alias theme) = [Run ptab, Execvp ''ssh'' [''ssh'', host_alias]]"
    unfolding connect_def exec_ssh_def Let_def ptab_def[symmetric]
    by simp
  have 3: "run w (set_colors ''kitten'' p) = TimeoutExpired \<longrightarrow>
      apply_theme w p display =
        \<lparr>calls = [Run (set_colors ''kitten'' p)], notices = [timed_out], ok = False\<rparr>"
    unfolding apply_theme_def timed_out_def by simp
  have 4: "(run w (set_colors ''kitten'' p) = FileNotFoundError
         \<or> (\<exists>rc out err. run w (set_colors ''kitten'' p) = Completed rc out err \<and> rc \<noteq> 0))
        \<and> run w (set_colors ''kitty'' p) = TimeoutExpired \<longrightarrow>
      apply_theme w p display =
        \<lparr>calls = [Run (set_colors ''kitten'' p), Run (set_colors ''kitty'' p)],
         notices = [timed_out], ok = False\<rparr>"
    unfolding apply_theme_def timed_out_def by (auto simp: Let_def)
  show ?thesis using 1 2 3 4 unfolding tab_def ptab_def by blast
qed

theorem timeout_connect_proceeds_theme_stops_witness:
  "run world_timeout (launch_tab @ kitten_ssh_argv ''h'' (Some ''dracula'')) = TimeoutExpired
   \<and> run world_timeout (launch_tab @ [''ssh'', ''h'']) = TimeoutExpired
   \<and> run world_timeout (set_colors ''kitten'' [''/'', ''k'', ''a.conf'']) = TimeoutExpired
   \<and> take 2 (fst (connect world_timeout True ''h'' (Some ''dracula''))) =
        [Run (launch_tab @ kitten_ssh_argv ''h'' (Some ''dracula'')),
         Execvp ''kitten'' (kitten_ssh_argv ''h'' (Some ''dracula''))]
   \<and> fst (connect world_timeout False ''h'' (Some ''dracula'')) =
        [Run (launch_tab @ [''ssh'', ''h'']), Execvp ''ssh'' [''ssh'', ''h'']]
   \<and> apply_theme world_timeout [''/'', ''k'', ''a.conf''] ''a'' =
        \<lparr>calls = [Run (set_colors ''kitten'' [''/'', ''k'', ''a.conf''])],
         notices = [timed_out], ok = False\<rparr>"
proof -
  have r: "run world_timeout argv = TimeoutExpired" for argv
    by (simp add: world_timeout_def)
  show ?thesis
    using r timeout_connect_proceeds_theme_stops[of world_timeout "''h''" "Some ''dracula''"
                "[''/'', ''k'', ''a.conf'']" "''a''"]
    by blast
qed

text \<open>
  C10: in kitten mode every call is the new-tab command or the \<open>execvp\<close> of \<open>kitten\<close>,
  both carrying \<open>ssh_argv\<close> (which names the color scheme when there is one), or the
  \<open>execvp\<close> of \<open>ssh\<close> with the host alias alone; in plain mode both calls carry the host
  alias alone, and the whole result is the same as with no theme.
\<close>

theorem ssh_fallbacks_drop_theme:
  "set (fst (connect w True host_alias theme))
     \<subseteq> {Run (launch_tab @ kitten_ssh_argv host_alias theme),
         Execvp ''kitten'' (kitten_ssh_argv host_alias theme),
         Execvp ''ssh'' [''ssh'', host_alias]}
   \<and> set (fst (connect w False host_alias theme))
     \<subseteq> {Run (launch_tab @ [''ssh'', host_alias]), Execvp ''ssh'' [''ssh'', host_alias]}
   \<and> connect w False host_alias theme = connect w False host_alias None
   \<and> (\<forall>t. theme = Some t \<and> t \<noteq> [] \<longrightarrow>
         kitten_ssh_argv host_alias theme
           = [''kitten'', ''ssh'', ''--kitten'', ''color_scheme='' @ t, host_alias])
   \<and> (theme = None \<or> theme = Some [] \<longrightarrow>
         kitten_ssh_argv host_alias theme = [''kitten'', ''ssh'', host_alias])"
proof -
  define a where "a = kitten_ssh_argv host_alias theme"
  define tab where "tab = launch_tab @ a"
  define s where "s = [''ssh'', host_alias]"
  define ptab where "ptab = launch_tab @ s"
  have 1: "set (fst (connect w True host_alias theme))
     \<subseteq> {Run tab, Execvp ''kitten'' a, Execvp ''ssh'' s}"
    unfolding connect_def exec_ssh_def Let_def a_def[symmetric] tab_def[symmetric] s_def[symmetric]
    by (cases "execvp w ''kitten''") simp_all
  have 2: "set (fst (connect w False host_alias theme)) \<subseteq> {Run ptab, Execvp ''ssh'' s}"
    unfolding connect_def exec_ssh_def Let_def s_def[symmetric] ptab_def[symmetric]
    by simp
  have 3: "connect w False host_alias theme = connect w False host_alias None"
    unfolding connect_def by simp
  have 4: "\<forall>t. theme = Some t \<and> t \<noteq> [] \<longrightarrow>
         kitten_ssh_argv host_alias theme
           = [''kitten'', ''ssh'', ''--kitten'', ''color_scheme='' @ t, host_alias]"
    unfolding kitten_ssh_argv_def by simp
  have 5: "theme = None \<or> theme = Some [] \<longrightarrow>
         kitten_ssh_argv host_alias theme = [''kitten'', ''ssh'', host_alias]"
    unfolding kitten_ssh_argv_def by auto
  show ?thesis using 1 2 3 4 5 unfolding a_def tab_def ptab_def s_def by blast
qed

theorem ssh_fallbacks_drop_theme_witness:
  "fst (connect world_none True ''h'' (Some ''dracula'')) =
     [Run (launch_tab @ kitten_ssh_argv ''h'' (Some ''dracula'')),
      Execvp ''kitten'' (kitten_ssh_argv ''h'' (Some ''dracula'')),
      Execvp ''ssh'' [''ssh'', ''h'']]
   \<and> kitten_ssh_argv ''h'' (Some ''dracula'')
       = [''kitten'', ''ssh'', ''--kitten'', ''color_scheme='' @ ''dracula'', ''h'']
   \<and> connect world_none False ''h'' (Some ''dracula'') = connect world_none False ''h'' None"
proof -
  have c: "fst (connect world_none True ''h'' (Some ''dracula'')) =
     [Run (launch_tab @ kitten_ssh_argv ''h'' (Some ''dracula'')),
      Execvp ''kitten'' (kitten_ssh_argv ''h'' (Some ''dracula'')),
      Execvp ''ssh'' [''ssh'', ''h'']]"
    by (simp add: connect_def exec_ssh_def world_none_def Let_def)
  have n: "Some ''dracula'' = Some ''dracula'' \<and> ''dracula'' \<noteq> []" by simp
  note t = ssh_fallbacks_drop_theme[of world_none "''h''" "Some ''dracula''"]
  from t have k: "\<forall>t. Some ''dracula'' = Some t \<and> t \<noteq> [] \<longrightarrow>
         kitten_ssh_argv ''h'' (Some ''dracula'')
           = [''kitten'', ''ssh'', ''--kitten'', ''color_scheme='' @ t, ''h'']"
    by (rule conjunct2[THEN conjunct2, THEN conjunct2, THEN conjunct1])
  from t have p: "connect world_none False ''h'' (Some ''dracula'') = connect world_none False ''h'' None"
    by (rule conjunct2[THEN conjunct2, THEN conjunct1])
  from k[rule_format, OF n] c p show ?thesis by (intro conjI)
qed

section \<open>Properties of the path override and of the directive\<close>

lemma strip_empty_iff: "strip v = [] \<longleftrightarrow> (\<forall>c \<in> set v. isspace c)"
proof
  assume "strip v = []"
  then have "dropWhile isspace (rev (dropWhile isspace v)) = []" by (simp add: strip_def)
  then have "\<forall>c \<in> set (dropWhile isspace v). isspace c" by (simp add: dropWhile_eq_Nil_conv)
  then have "dropWhile isspace v = []"
    by (metis dropWhile_eq_Nil_conv hd_dropWhile list.set_sel(1))
  then show "\<forall>c \<in> set v. isspace c" by (simp add: dropWhile_eq_Nil_conv)
next
  assume "\<forall>c \<in> set v. isspace c"
  then have d: "dropWhile isspace v = []" by (simp add: dropWhile_eq_Nil_conv)
  show "strip v = []" unfolding strip_def d by simp
qed

text \<open>
  C8, as stated, fails for the theme variant: a value of \<open>KITTY_CONFIG_DIRECTORY\<close> that
  is one space is blank, yet it is taken as the override and not the default.
\<close>

theorem blank_override_counterexample:
  "strip '' '' = []
   \<and> env_blank ''KITTY_CONFIG_DIRECTORY'' = Some '' ''
   \<and> get_kitty_config_dir env_blank \<noteq> HomeJoin [''.config'', ''kitty'']"
  by (simp add: env_blank_def get_kitty_config_dir_def isspace_def strip_def)

text \<open>
  C8, amended: in the config variant an unset or blank (empty or all whitespace)
  \<open>SSH_CONFIG_ENV\<close> gives the default under the home directory, and any other value,
  trimmed, is the override. In the theme variant an unset or empty
  \<open>KITTY_CONFIG_DIRECTORY\<close> gives the default, and every non-empty value, whitespace
  included, is the override as it stands.
\<close>

theorem config_path_resolution:
  "(environ ''SSH_CONFIG_ENV'' = None
      \<or> (\<exists>v. environ ''SSH_CONFIG_ENV'' = Some v \<and> (\<forall>c \<in> set v. isspace c))
     \<longrightarrow> get_ssh_config_path environ = HomeJoin [''.ssh'', ''config''])
   \<and> (environ ''SSH_CONFIG_ENV'' = Some v \<and> \<not> (\<forall>c \<in> set v. isspace c)
     \<longrightarrow> get_ssh_config_path environ = ExpandResolve (strip v))
   \<and> (environ ''KITTY_CONFIG_DIRECTORY'' = None \<or> environ ''KITTY_CONFIG_DIRECTORY'' = Some []
     \<longrightarrow> get_kitty_config_dir environ = HomeJoin [''.config'', ''kitty''])
   \<and> (environ ''KITTY_CONFIG_DIRECTORY'' = Some v \<and> v \<noteq> []
     \<longrightarrow> get_kitty_config_dir environ = ExpandResolve v)"
proof -
  have 1: "environ ''SSH_CONFIG_ENV'' = None
      \<or> (\<exists>v. environ ''SSH_CONFIG_ENV'' = Some v \<and> (\<forall>c \<in> set v. isspace c))
     \<longrightarrow> get_ssh_config_path environ = HomeJoin [''.ssh'', ''config'']"
    unfolding get_ssh_config_path_def Let_def strip_empty_iff[symmetric]
    by (auto simp: strip_def)
  have 2: "environ ''SSH_CONFIG_ENV'' = Some v \<and> \<not> (\<forall>c \<in> set v. isspace c)
     \<longrightarrow> get_ssh_config_path environ = ExpandResolve (strip v)"
    unfolding get_ssh_config_path_def Let_def strip_empty_iff[symmetric]
    by auto
  have 3: "environ ''KITTY_CONFIG_DIRECTORY'' = None \<or> environ ''KITTY_CONFIG_DIRECTORY'' = Some []
     \<longrightarrow> get_kitty_config_dir environ = HomeJoin [''.config'', ''kitty'']"
    unfolding get_kitty_config_dir_def by auto
  have 4: "environ ''KITTY_CONFIG_DIRECTORY'' = Some v \<and> v \<noteq> []
     \<longrightarrow> get_kitty_config_dir environ = ExpandResolve v"
    unfolding get_kitty_config_dir_def by auto
  show ?thesis using 1 2 3 4 by blast
qed

theorem config_path_resolution_witness:
  "env_blank ''SSH_CONFIG_ENV'' = Some '' '' \<and> isspace CHR '' ''
   \<and> get_ssh_config_path env_blank = HomeJoin [''.ssh'', ''config'']
   \<and> env_blank ''KITTY_CONFIG_DIRECTORY'' = Some '' '' \<and> '' '' \<noteq> []
   \<and> get_kitty_config_dir env_blank = ExpandResolve '' ''"
proof -
  have a: "env_blank ''SSH_CONFIG_ENV'' = Some '' ''" by (simp add: env_blank_def)
  have b: "\<forall>c \<in> set '' ''. isspace c" by (simp add: isspace_def)
  have c: "env_blank ''KITTY_CONFIG_DIRECTORY'' = Some '' ''" by (simp add: env_blank_def)
  have d: "'' '' \<noteq> []" by simp
  note t = config_path_resolution[of env_blank "'' ''"]
  have e: "get_ssh_config_path env_blank = HomeJoin [''.ssh'', ''config'']"
    using t a b by blast
  have f: "get_kitty_config_dir env_blank = ExpandResolve '' ''"
    using t c d by blast
  have g: "isspace CHR '' ''" by (simp add: isspace_def)
  show ?thesis using a g c d e f by (intro conjI)
qed

text \<open>
  C7: the directive \<open>kitty theme=a:b\<close> has its first separator at the equals sign, so
  the value should be \<open>a:b\<close>; the parser picks the colon whenever the text has one and
  yields \<open>b\<close>.
\<close>

theorem directive_split_at_later_colon:
  "parse_ssh_config (Readable directive_text) = Inr [(''h'', ''h'', Some ''b'')]"
  by code_simp

section \<open>Properties of the selection\<close>

lemma apply_loop_notices:
  "(ok (apply_loop w last_err cmds) \<longrightarrow> notices (apply_loop w last_err cmds) = [])
   \<and> (\<not> ok (apply_loop w last_err cmds) \<longrightarrow>
        (\<exists>m. notices (apply_loop w last_err cmds) = [\<lparr>msg = m, sev = Error, timeout = 6\<rparr>]))"
proof (induction cmds arbitrary: last_err)
  case Nil show ?case by simp
next
  case (Cons cmd cmds)
  show ?case
  proof (cases "run w cmd")
    case (Completed rc out err)
    then show ?thesis using Cons[of "Some (strip (or_else err (or_else out (''exit '' @ str_int rc))))"]
      by (simp add: Let_def)
  next
    case FileNotFoundError
    then show ?thesis using Cons[of last_err] by (simp add: Let_def)
  next
    case TimeoutExpired
    then show ?thesis by simp
  qed
qed

text \<open>
  C2, as stated, fails for the theme variant: when the launcher succeeds on the selected
  theme the picker does not terminate.
\<close>

theorem selection_counterexample:
  "t_filtered theme_app0 ! 0 = (''a/one'', [''/'', ''k'', ''a'', ''one.conf''])
   \<and> ok (apply_theme world_ok [''/'', ''k'', ''a'', ''one.conf''] ''a/one'')
   \<and> \<not> t_exited (snd (theme_on_list_view_selected world_ok theme_app0 0))"
  by (simp add: theme_app0_def world_ok_def apply_theme_def theme_on_list_view_selected_def Let_def)

text \<open>
  C2, amended: a selection confirmed on a valid index runs the launcher on the entry at
  that index. In the connect variant a launcher success shows a confirmation (2 seconds)
  and exits. In the theme variant a success shows a confirmation, sets the status line to
  the applied theme and leaves the picker open. A launcher failure, in both variants, only
  adds an error notification: the picker does not exit and the filtered view and the
  highlighted index stay as they were.
\<close>

theorem selection_outcomes:
  assumes "0 \<le> idx" and "idx < int (length (filtered app))"
    and "filtered app ! nat idx = (display, host_alias, theme)"
    and "0 \<le> tidx" and "tidx < int (length (t_filtered tapp))"
    and "t_filtered tapp ! nat tidx = (tdisplay, p)"
  shows "fst (ssh_on_list_view_selected w app idx) = fst (connect w (use_kitten_ssh app) host_alias theme)
   \<and> (snd (connect w (use_kitten_ssh app) host_alias theme) = Return True \<longrightarrow>
        snd (ssh_on_list_view_selected w app idx) =
          Return (app\<lparr>shown := shown app @
                          [\<lparr>msg = Connecting display, sev = Information, timeout = 2\<rparr>],
                       exited := True\<rparr>))
   \<and> (snd (connect w (use_kitten_ssh app) host_alias theme) = Return False \<longrightarrow>
        snd (ssh_on_list_view_selected w app idx) =
          Return (app\<lparr>shown := shown app @
                          [\<lparr>msg = Text ''Could not run kitten ssh or ssh (not in PATH)'',
                            sev = Error, timeout = 5\<rparr>]\<rparr>))
   \<and> fst (theme_on_list_view_selected w tapp tidx) = calls (apply_theme w p tdisplay)
   \<and> (ok (apply_theme w p tdisplay) \<longrightarrow>
        snd (theme_on_list_view_selected w tapp tidx) =
          tapp\<lparr>t_shown := t_shown tapp @
                     [\<lparr>msg = Text (''Applied: '' @ tdisplay), sev = Information, timeout = 2\<rparr>],
                t_status := ''Current: '' @ tdisplay\<rparr>)
   \<and> (\<not> ok (apply_theme w p tdisplay) \<longrightarrow>
        (\<exists>m. snd (theme_on_list_view_selected w tapp tidx) =
          tapp\<lparr>t_shown := t_shown tapp @ [\<lparr>msg = m, sev = Error, timeout = 6\<rparr>]\<rparr>))"
proof -
  define c where "c = connect w (use_kitten_ssh app) host_alias theme"
  define r where "r = apply_theme w p tdisplay"
  have v: "\<not> (idx < 0 \<or> idx \<ge> int (length (filtered app)))" using assms(1,2) by simp
  have tv: "\<not> (tidx < 0 \<or> tidx \<ge> int (length (t_filtered tapp)))" using assms(4,5) by simp
  have h: "ssh_on_list_view_selected w app idx =
      (case c of
         (cs, ProcessReplaced) \<Rightarrow> (cs, ProcessReplaced)
       | (cs, Return True) \<Rightarrow>
           (cs, Return (app\<lparr>shown := shown app @
                                [\<lparr>msg = Connecting display, sev = Information, timeout = 2\<rparr>],
                              exited := True\<rparr>))
       | (cs, Return False) \<Rightarrow>
           (cs, Return (app\<lparr>shown := shown app @
                                [\<lparr>msg = Text ''Could not run kitten ssh or ssh (not in PATH)'',
                                  sev = Error, timeout = 5\<rparr>]\<rparr>)))"
    unfolding ssh_on_list_view_selected_def c_def using v assms(3) by simp
  have 1: "fst (ssh_on_list_view_selected w app idx) = fst c"
    unfolding h by (cases c) (auto split: outcome.splits bool.splits)
  have 2: "snd c = Return True \<longrightarrow>
        snd (ssh_on_list_view_selected w app idx) =
          Return (app\<lparr>shown := shown app @
                          [\<lparr>msg = Connecting display, sev = Information, timeout = 2\<rparr>],
                       exited := True\<rparr>)"
    unfolding h by (cases c) auto
  have 3: "snd c = Return False \<longrightarrow>
        snd (ssh_on_list_view_selected w app idx) =
          Return (app\<lparr>shown := shown app @
                          [\<lparr>msg = Text ''Could not run kitten ssh or ssh (not in PATH)'',
                            sev = Error, timeout = 5\<rparr>]\<rparr>)"
    unfolding h by (cases c) auto
  have th: "theme_on_list_view_selected w tapp tidx =
      (if ok r
       then (calls r,
             tapp\<lparr>t_shown := t_shown tapp @ notices r @
                        [\<lparr>msg = Text (''Applied: '' @ tdisplay), sev = Information, timeout = 2\<rparr>],
                   t_status := ''Current: '' @ tdisplay\<rparr>)
       else (calls r, tapp\<lparr>t_shown := t_shown tapp @ notices r\<rparr>))"
    unfolding theme_on_list_view_selected_def r_def using tv assms(6) by (simp add: Let_def)
  have n: "(ok r \<longrightarrow> notices r = [])
     \<and> (\<not> ok r \<longrightarrow> (\<exists>m. notices r = [\<lparr>msg = m, sev = Error, timeout = 6\<rparr>]))"
    unfolding r_def apply_theme_def by (rule apply_loop_notices)
  have 4: "fst (theme_on_list_view_selected w tapp tidx) = calls r"
    unfolding th by simp
  have 5: "ok r \<longrightarrow>
        snd (theme_on_list_view_selected w tapp tidx) =
          tapp\<lparr>t_shown := t_shown tapp @
                     [\<lparr>msg = Text (''Applied: '' @ tdisplay), sev = Information, timeout = 2\<rparr>],
                t_status := ''Current: '' @ tdisplay\<rparr>"
    unfolding th using n by simp
  have 6: "\<not> ok r \<longrightarrow>
        (\<exists>m. snd (theme_on_list_view_selected w tapp tidx) =
          tapp\<lparr>t_shown := t_shown tapp @ [\<lparr>msg = m, sev = Error, timeout = 6\<rparr>]\<rparr>)"
    unfolding th using n by auto
  show ?thesis using 1 2 3 4 5 6 unfolding c_def r_def by blast
qed


theorem selection_outcomes_witness:
  "snd (connect world_none True ''alpha'' None) = Return False
   \<and> snd (ssh_on_list_view_selected world_none ssh_app0 0) =
       Return (ssh_app0\<lparr>shown := shown ssh_app0 @
                 [\<lparr>msg = Text ''Could not run kitten ssh or ssh (not in PATH)'',
                   sev = Error, timeout = 5\<rparr>]\<rparr>)
   \<and> \<not> ok (apply_theme world_none [''/'', ''k'', ''a'', ''one.conf''] ''a/one'')
   \<and> t_filtered (snd (theme_on_list_view_selected world_none theme_app0 0)) = t_filtered theme_app0
   \<and> t_highlighted (snd (theme_on_list_view_selected world_none theme_app0 0))
       = t_highlighted theme_app0
   \<and> t_exited (snd (theme_on_list_view_selected world_none theme_app0 0)) = t_exited theme_app0"
proof -
  have i: "(0::int) \<le> 0" by simp
  have l: "(0::int) < int (length (filtered ssh_app0))" by (simp add: ssh_app0_def)
  have e: "filtered ssh_app0 ! nat 0 = (''root@alpha'', ''alpha'', None)" by (simp add: ssh_app0_def)
  have tl: "(0::int) < int (length (t_filtered theme_app0))" by (simp add: theme_app0_def)
  have te: "t_filtered theme_app0 ! nat 0 = (''a/one'', [''/'', ''k'', ''a'', ''one.conf''])"
    by (simp add: theme_app0_def)
  have u: "use_kitten_ssh ssh_app0 = True" by (simp add: ssh_app0_def)
  have c: "snd (connect world_none True ''alpha'' None) = Return False"
    by (simp add: connect_def exec_ssh_def world_none_def Let_def)
  have a: "\<not> ok (apply_theme world_none [''/'', ''k'', ''a'', ''one.conf''] ''a/one'')"
    by (simp add: apply_theme_def world_none_def Let_def)
  note t = selection_outcomes[OF i l e i tl te, of world_none, unfolded u]
  from t c have s: "snd (ssh_on_list_view_selected world_none ssh_app0 0) =
       Return (ssh_app0\<lparr>shown := shown ssh_app0 @
                 [\<lparr>msg = Text ''Could not run kitten ssh or ssh (not in PATH)'',
                   sev = Error, timeout = 5\<rparr>]\<rparr>)"
    by blast
  from t a obtain m where m: "snd (theme_on_list_view_selected world_none theme_app0 0) =
          theme_app0\<lparr>t_shown := t_shown theme_app0 @ [\<lparr>msg = m, sev = Error, timeout = 6\<rparr>]\<rparr>"
    by blast
  show ?thesis using c s a unfolding m by simp
qed

end
